theory Spec2Isabelle
  imports Complex_Main "HOL-Library.Product_Lexorder"
begin

section \<open>The rooftop availability notebook, embedded\<close>

text \<open>
  The program is the notebook \<^verbatim>\<open>prepare_rooftop_solar_pv.ipynb\<close>. Its code cells are a
  straight-line script over three tables (buildings, the cutout grid, the supply regions)
  and two labelled arrays. The embedding keeps the script's variable names.

  The cell that has no execution count (\<^verbatim>\<open>bin = bin.groupby(["y","x"]).sum()["area"]\<close>)
  was never run and is left out.

  Conventions of the embedding:
  \<^item> a table is the list of its rows, a row is a record of the columns the script reads;
    the column \<open>area\<close> of the buildings (\<^verbatim>\<open>buildings.geometry.area\<close>) is given with
    the table;
  \<^item> the geometry type \<open>'g\<close> and the predicate \<open>wp\<close> of the spatial join
    (\<^verbatim>\<open>op="within"\<close>) belong to the geometry library and are parameters;
  \<^item> the labels \<open>x\<close>, \<open>y\<close> of the grid are only compared and sorted, they are integers
    here;
  \<^item> an area is a real number; a missing entry of a labelled array of areas is NaN, written
    \<open>None\<close>; the quotient of the normalisation is a \<open>npfloat\<close>, which has NaN and
    the two infinities that a division by zero produces.
\<close>

subsection \<open>Tables\<close>

record 'g building =
  b_geometry :: 'g
  b_area :: real

record 'g cell =
  c_x :: int
  c_y :: int
  c_geometry :: 'g

record 'g region =
  r_name :: string
  r_geometry :: 'g

text \<open>
  \<^verbatim>\<open>gpd.sjoin(left, right, op="within")\<close>: the inner join; one row for every pair of a left
  row and a right row whose geometries satisfy the predicate, no row for a left row
  that matches nothing.
\<close>

definition sjoin :: "('g \<Rightarrow> 'g \<Rightarrow> bool) \<Rightarrow> ('a \<Rightarrow> 'g) \<Rightarrow> ('b \<Rightarrow> 'g) \<Rightarrow> 'a list \<Rightarrow> 'b list \<Rightarrow> ('a \<times> 'b) list" where
  "sjoin wp gl gr left right =
     concat (map (\<lambda>l. map (\<lambda>r. (l, r)) (filter (\<lambda>r. wp (gl l) (gr r)) right)) left)"

text \<open>\<^verbatim>\<open>buildings_in_cells = gpd.sjoin(buildings, grid, op="within")\<close>\<close>

definition buildings_in_cells :: "('g \<Rightarrow> 'g \<Rightarrow> bool) \<Rightarrow> 'g building list \<Rightarrow> 'g cell list \<Rightarrow> ('g building \<times> 'g cell) list" where
  "buildings_in_cells wp buildings grid = sjoin wp b_geometry c_geometry buildings grid"

subsection \<open>Labelled arrays\<close>

text \<open>
  A two-dimensional array of areas with dimensions \<open>(y, x)\<close>: its coordinate labels and
  its values by label. Only values at labels of the array are ever read.
\<close>

record dataarray =
  da_y :: "int list"
  da_x :: "int list"
  da_val :: "int \<Rightarrow> int \<Rightarrow> real option"

text \<open>A boolean array with dimensions \<open>(x, y)\<close>.\<close>

record boolarray =
  mk_x :: "int list"
  mk_y :: "int list"
  mk_val :: "int \<Rightarrow> int \<Rightarrow> bool"

datatype npfloat = NaN | PInf | NInf | Fin real

text \<open>The array \<open>availability_matrix\<close>, dimensions \<open>(bus, y, x)\<close>.\<close>

record availability =
  am_bus :: "string list"
  am_y :: "int list"
  am_x :: "int list"
  am_val :: "string \<Rightarrow> int \<Rightarrow> int \<Rightarrow> npfloat"

text \<open>\<^verbatim>\<open>Series.unique()\<close>: the distinct values in order of first appearance.\<close>

definition unique :: "'a list \<Rightarrow> 'a list" where
  "unique xs = rev (remdups (rev xs))"

text \<open>
  \<^verbatim>\<open>buildings_in_cells.groupby(["y","x"]).sum()["area"]\<close>: one entry for every key
  \<open>(y, x)\<close> that occurs among the rows, in the order of the keys, with the sum of the
  areas of the rows of that key.
\<close>

definition row_key :: "'g building \<times> 'g cell \<Rightarrow> int \<times> int" where
  "row_key r = (c_y (snd r), c_x (snd r))"

definition groupby_sum_area :: "('g building \<times> 'g cell) list \<Rightarrow> ((int \<times> int) \<times> real) list" where
  "groupby_sum_area rows =
     map (\<lambda>k. (k, sum_list (map (\<lambda>r. b_area (fst r)) (filter (\<lambda>r. row_key r = k) rows))))
       (sort (remdups (map row_key rows)))"

text \<open>
  \<^verbatim>\<open>.to_xarray()\<close> of a series with a two-level index: the coordinates are the sorted
  distinct values of each level, a combination of labels without an entry is NaN.
\<close>

definition to_xarray :: "((int \<times> int) \<times> real) list \<Rightarrow> dataarray" where
  "to_xarray s =
     \<lparr>da_y = sort (remdups (map (\<lambda>e. fst (fst e)) s)),
      da_x = sort (remdups (map (\<lambda>e. snd (fst e)) s)),
      da_val = (\<lambda>y x. map_of s (y, x))\<rparr>"

definition building_area_in_cell :: "('g \<Rightarrow> 'g \<Rightarrow> bool) \<Rightarrow> 'g building list \<Rightarrow> 'g cell list \<Rightarrow> dataarray" where
  "building_area_in_cell wp buildings grid =
     to_xarray (groupby_sum_area (buildings_in_cells wp buildings grid))"

subsection \<open>The loop over the regions\<close>

text \<open>
  \<^verbatim>\<open>map_cell_to_region = gpd.sjoin(grid, supply_regions[region_num], op="within")[["x", "y", "name"]]\<close>
\<close>

definition map_cell_to_region :: "('g \<Rightarrow> 'g \<Rightarrow> bool) \<Rightarrow> 'g cell list \<Rightarrow> 'g region list \<Rightarrow> (int \<times> int \<times> string) list" where
  "map_cell_to_region wp grid regions =
     map (\<lambda>j. (c_x (fst j), c_y (fst j), r_name (snd j))) (sjoin wp c_geometry r_geometry grid regions)"

text \<open>
  \<^verbatim>\<open>xr.DataArray(coords = {"bus": bus_list, "y": cutout.grid.y.unique(), "x": cutout.grid.x.unique()}, dims = ["bus", "y", "x"])\<close>:
  without data, the array is filled with NaN.
\<close>

definition new_availability_matrix :: "string list \<Rightarrow> 'g cell list \<Rightarrow> availability" where
  "new_availability_matrix bus_list grid =
     \<lparr>am_bus = bus_list, am_y = unique (map c_y grid), am_x = unique (map c_x grid),
      am_val = (\<lambda>b y x. NaN)\<rparr>"

text \<open>\<^verbatim>\<open>cell_list = map_cell_to_region[map_cell_to_region["name"] == bus][["x","y"]]\<close>\<close>

definition cell_list :: "(int \<times> int \<times> string) list \<Rightarrow> string \<Rightarrow> (int \<times> int) list" where
  "cell_list m2r bus = map (\<lambda>r. (fst r, fst (snd r))) (filter (\<lambda>r. snd (snd r) = bus) m2r)"

text \<open>
  \<^verbatim>\<open>mask = availability_matrix.coords['x'].isin(cell_list['x']) & availability_matrix.coords['y'].isin(cell_list['y'])\<close>:
  two one-dimensional tests, broadcast against each other.
\<close>

definition mask :: "availability \<Rightarrow> (int \<times> int) list \<Rightarrow> boolarray" where
  "mask am cl =
     \<lparr>mk_x = am_x am, mk_y = am_y am,
      mk_val = (\<lambda>x y. x \<in> set (map fst cl) \<and> y \<in> set (map snd cl))\<rparr>"

text \<open>
  \<^verbatim>\<open>da.where(cond, drop=True)\<close>: the two arrays are aligned on the labels they share
  (inner join), the labels of a dimension at which the condition holds nowhere are
  dropped, and a value at which the condition fails becomes NaN.
\<close>

definition where_drop :: "dataarray \<Rightarrow> boolarray \<Rightarrow> dataarray" where
  "where_drop da cond =
     (let ys = filter (\<lambda>y. y \<in> set (mk_y cond)) (da_y da);
          xs = filter (\<lambda>x. x \<in> set (mk_x cond)) (da_x da)
      in \<lparr>da_y = filter (\<lambda>y. list_ex (\<lambda>x. mk_val cond x y) xs) ys,
          da_x = filter (\<lambda>x. list_ex (\<lambda>y. mk_val cond x y) ys) xs,
          da_val = (\<lambda>y x. if mk_val cond x y then da_val da y x else None)\<rparr>)"

text \<open>\<^verbatim>\<open>da.sum()\<close>: the sum of all values, NaN skipped; 0 for an array without values.\<close>

definition nan_to_zero :: "real option \<Rightarrow> real" where
  "nan_to_zero v = (case v of None \<Rightarrow> 0 | Some a \<Rightarrow> a)"

definition da_sum :: "dataarray \<Rightarrow> real" where
  "da_sum da = (\<Sum>y\<leftarrow>da_y da. \<Sum>x\<leftarrow>da_x da. nan_to_zero (da_val da y x))"

text \<open>
  The division of floating-point arrays raises nothing: a zero divisor gives NaN for
  \<open>0 / 0\<close> and an infinity otherwise, and NaN divided by anything is NaN.
\<close>

definition np_divide :: "real \<Rightarrow> real \<Rightarrow> npfloat" where
  "np_divide a d =
     (if d \<noteq> 0 then Fin (a / d) else if a = 0 then NaN else if 0 < a then PInf else NInf)"

definition nan_divide :: "real option \<Rightarrow> real \<Rightarrow> npfloat" where
  "nan_divide v d = (case v of None \<Rightarrow> NaN | Some a \<Rightarrow> np_divide a d)"

text \<open>\<^verbatim>\<open>(da / d).values\<close>: the quotients as a nested array, rows by \<open>y\<close>.\<close>

definition divide_values :: "dataarray \<Rightarrow> real \<Rightarrow> npfloat list list" where
  "divide_values da d = map (\<lambda>y. map (\<lambda>x. nan_divide (da_val da y x) d) (da_x da)) (da_y da)"

datatype error = KeyError | ValueError

text \<open>
  \<^verbatim>\<open>am.loc[dict(bus=bus, x=xs, y=ys)] = vals\<close>: a label that the array does not have is a
  KeyError, values of another shape than the selection are a ValueError; otherwise the
  value at position \<open>(i, j)\<close> is stored at the labels \<open>(bus, ys ! i, xs ! j)\<close>.
\<close>

definition loc_assign :: "availability \<Rightarrow> string \<Rightarrow> int list \<Rightarrow> int list \<Rightarrow> npfloat list list \<Rightarrow> error + availability" where
  "loc_assign am bus xs ys vals =
     (if bus \<notin> set (am_bus am) \<or> \<not> set xs \<subseteq> set (am_x am) \<or> \<not> set ys \<subseteq> set (am_y am)
      then Inl KeyError
      else if length vals \<noteq> length ys \<or> list_ex (\<lambda>row. length row \<noteq> length xs) vals
      then Inl ValueError
      else Inr (am\<lparr>am_val := (\<lambda>b y x.
             if b = bus then
               (case map_of (zip ys vals) y of
                  None \<Rightarrow> am_val am b y x
                | Some row \<Rightarrow> (case map_of (zip xs row) x of
                                None \<Rightarrow> am_val am b y x
                              | Some v \<Rightarrow> v))
             else am_val am b y x)\<rparr>))"

text \<open>The body of the loop over the buses of a region.\<close>

definition selected_data :: "dataarray \<Rightarrow> availability \<Rightarrow> (int \<times> int \<times> string) list \<Rightarrow> string \<Rightarrow> dataarray" where
  "selected_data bac am m2r bus = where_drop bac (mask am (cell_list m2r bus))"

definition assign_bus :: "dataarray \<Rightarrow> (int \<times> int \<times> string) list \<Rightarrow> string \<Rightarrow> availability \<Rightarrow> error + availability" where
  "assign_bus bac m2r bus am =
     (let sel = selected_data bac am m2r bus
      in loc_assign am bus (da_x sel) (da_y sel) (divide_values sel (da_sum sel)))"

fun bus_loop :: "dataarray \<Rightarrow> (int \<times> int \<times> string) list \<Rightarrow> string list \<Rightarrow> availability \<Rightarrow> error + availability" where
  "bus_loop bac m2r [] am = Inr am"
| "bus_loop bac m2r (bus # rest) am =
     (case assign_bus bac m2r bus am of
        Inl e \<Rightarrow> Inl e
      | Inr am' \<Rightarrow> bus_loop bac m2r rest am')"

text \<open>The body of the loop over the regions, up to the array that is written out.\<close>

definition availability_matrix :: "('g \<Rightarrow> 'g \<Rightarrow> bool) \<Rightarrow> dataarray \<Rightarrow> 'g cell list \<Rightarrow> 'g region list \<Rightarrow> error + availability" where
  "availability_matrix wp bac grid regions =
     (let bus_list = map r_name regions;
          m2r = map_cell_to_region wp grid regions
      in bus_loop bac m2r bus_list (new_availability_matrix bus_list grid))"

text \<open>
  What the loop does to the outside: it prints the key of the region and writes the
  array to the file of that key.
\<close>

datatype event = Print int | To_netcdf int availability

fun region_loop :: "('g \<Rightarrow> 'g \<Rightarrow> bool) \<Rightarrow> dataarray \<Rightarrow> 'g cell list \<Rightarrow> (int \<times> 'g region list) list \<Rightarrow> error + event list" where
  "region_loop wp bac grid [] = Inr []"
| "region_loop wp bac grid (kv # rest) =
     (case availability_matrix wp bac grid (snd kv) of
        Inl e \<Rightarrow> Inl e
      | Inr am \<Rightarrow>
          (case region_loop wp bac grid rest of
             Inl e \<Rightarrow> Inl e
           | Inr evs \<Rightarrow> Inr (Print (fst kv) # To_netcdf (fst kv) am # evs)))"

text \<open>The whole notebook, from the three tables to what it prints and writes.\<close>

definition prepare_rooftop_solar_pv :: "('g \<Rightarrow> 'g \<Rightarrow> bool) \<Rightarrow> 'g building list \<Rightarrow> 'g cell list \<Rightarrow> (int \<times> 'g region list) list \<Rightarrow> error + event list" where
  "prepare_rooftop_solar_pv wp buildings grid supply_regions =
     region_loop wp (building_area_in_cell wp buildings grid) grid supply_regions"

subsection \<open>Notions of the specification, over the script's values\<close>

text \<open>
  The member cells of a bus, as pairs \<open>(x, y)\<close>: the cells of \<open>cell_list\<close> for that bus.
\<close>

definition members :: "('g \<Rightarrow> 'g \<Rightarrow> bool) \<Rightarrow> 'g cell list \<Rightarrow> 'g region list \<Rightarrow> string \<Rightarrow> (int \<times> int) set" where
  "members wp grid regions bus = set (cell_list (map_cell_to_region wp grid regions) bus)"

text \<open>The weight of a cell \<open>(x, y)\<close>: its summed area, 0 where there is none.\<close>

definition weight :: "dataarray \<Rightarrow> int \<times> int \<Rightarrow> real" where
  "weight bac c = nan_to_zero (da_val bac (snd c) (fst c))"

text \<open>All pairs of an \<open>x\<close> and a \<open>y\<close> that occur in a set of cells.\<close>

definition box :: "(int \<times> int) set \<Rightarrow> (int \<times> int) set" where
  "box M = fst ` M \<times> snd ` M"

text \<open>A set of cells that holds every pair of an \<open>x\<close> and a \<open>y\<close> occurring in it.\<close>

definition rectangle :: "(int \<times> int) set \<Rightarrow> bool" where
  "rectangle M = (\<forall>p\<in>M. \<forall>q\<in>M. (fst p, snd q) \<in> M)"

text \<open>The cells at which a mask holds.\<close>

definition mask_cells :: "boolarray \<Rightarrow> (int \<times> int) set" where
  "mask_cells m =
     set (concat (map (\<lambda>x. map (\<lambda>y. (x, y)) (filter (\<lambda>y. mk_val m x y) (mk_y m))) (mk_x m)))"

text \<open>The value that the assignment stores at a label of the selection, if any.\<close>

definition quotient :: "dataarray \<Rightarrow> int \<Rightarrow> int \<Rightarrow> npfloat option" where
  "quotient sel y x =
     (if y \<in> set (da_y sel) \<and> x \<in> set (da_x sel)
      then Some (nan_divide (da_val sel y x) (da_sum sel)) else None)"

text \<open>
  The defined entries of a bus are those that are not NaN. Their sum, and the test that
  an entry is undefined or a non-negative number.
\<close>

definition fin_or_zero :: "npfloat \<Rightarrow> real" where
  "fin_or_zero v = (case v of Fin a \<Rightarrow> a | _ \<Rightarrow> 0)"

definition defined_sum :: "availability \<Rightarrow> string \<Rightarrow> real" where
  "defined_sum am bus = (\<Sum>y\<leftarrow>am_y am. \<Sum>x\<leftarrow>am_x am. fin_or_zero (am_val am bus y x))"

definition nonneg_or_nan :: "npfloat \<Rightarrow> bool" where
  "nonneg_or_nan v = (case v of NaN \<Rightarrow> True | Fin a \<Rightarrow> 0 \<le> a | _ \<Rightarrow> False)"

text \<open>An entry of the array of a region, when the loop body returns one.\<close>

definition entry :: "error + availability \<Rightarrow> string \<Rightarrow> int \<Rightarrow> int \<Rightarrow> npfloat option" where
  "entry r bus y x = (case r of Inl e \<Rightarrow> None | Inr am \<Rightarrow> Some (am_val am bus y x))"

text \<open>How many cells with the labels \<open>k = (y, x)\<close> a geometry is within.\<close>

definition hits :: "('g \<Rightarrow> 'g \<Rightarrow> bool) \<Rightarrow> 'g cell list \<Rightarrow> 'g \<Rightarrow> int \<times> int \<Rightarrow> nat" where
  "hits wp grid g k = length (filter (\<lambda>c. wp g (c_geometry c) \<and> (c_y c, c_x c) = k) grid)"

text \<open>What a run printed, what it wrote, and each event without the array.\<close>

fun printed :: "event list \<Rightarrow> int list" where
  "printed [] = []"
| "printed (Print k # evs) = k # printed evs"
| "printed (To_netcdf k am # evs) = printed evs"

fun written :: "event list \<Rightarrow> (int \<times> availability) list" where
  "written [] = []"
| "written (Print k # evs) = written evs"
| "written (To_netcdf k am # evs) = (k, am) # written evs"

fun event_label :: "event \<Rightarrow> string \<times> int" where
  "event_label (Print k) = (''print'', k)"
| "event_label (To_netcdf k am) = (''to_netcdf'', k)"

subsection \<open>A concrete geometry and the scenarios\<close>

text \<open>
  To run the script on concrete tables, a geometry is the list of the unit squares it
  covers, and one geometry is within another when it is not empty and all its squares
  are squares of the other. A grid cell \<open>(i, j)\<close> is a block of two by two squares.
\<close>

definition pixel_within :: "(int \<times> int) list \<Rightarrow> (int \<times> int) list \<Rightarrow> bool" where
  "pixel_within a b = (a \<noteq> [] \<and> set a \<subseteq> set b)"

definition block :: "int \<Rightarrow> int \<Rightarrow> (int \<times> int) list" where
  "block i j = [(2 * i, 2 * j), (2 * i + 1, 2 * j), (2 * i, 2 * j + 1), (2 * i + 1, 2 * j + 1)]"

definition grid4 :: "(int \<times> int) list cell list" where
  "grid4 =
     [\<lparr>c_x = 0, c_y = 0, c_geometry = block 0 0\<rparr>, \<lparr>c_x = 0, c_y = 1, c_geometry = block 0 1\<rparr>,
      \<lparr>c_x = 1, c_y = 0, c_geometry = block 1 0\<rparr>, \<lparr>c_x = 1, c_y = 1, c_geometry = block 1 1\<rparr>]"

text \<open>A building of area 10 in cell \<open>(0, 0)\<close> and one of area 30 in cell \<open>(0, 1)\<close>.\<close>

definition feats :: "(int \<times> int) list building list" where
  "feats = [\<lparr>b_geometry = [(0, 0)], b_area = 10\<rparr>, \<lparr>b_geometry = [(1, 3)], b_area = 30\<rparr>]"

text \<open>The same, and a footprint of area 0 in cell \<open>(1, 0)\<close>.\<close>

definition feats0 :: "(int \<times> int) list building list" where
  "feats0 = [\<lparr>b_geometry = [(0, 0)], b_area = 10\<rparr>, \<lparr>b_geometry = [(1, 3)], b_area = 30\<rparr>,
             \<lparr>b_geometry = [(2, 0)], b_area = 0\<rparr>]"

text \<open>
  The zones: Z1 of the cells \<open>(0, 0)\<close> and \<open>(0, 1)\<close>; Z2 of the cell \<open>(1, 0)\<close>; Z3, smaller
  than a cell; Z4 of the cell \<open>(1, 1)\<close>; ZT of the cells \<open>(0, 0)\<close>, \<open>(0, 1)\<close> and \<open>(1, 0)\<close>; A of three cells in the shape of
  an L beside B of the fourth cell; W and E, whose border runs through the cells
  \<open>(1, 0)\<close> and \<open>(1, 1)\<close>.
\<close>

definition z1 :: "(int \<times> int) list region list" where
  "z1 = [\<lparr>r_name = ''Z1'', r_geometry = block 0 0 @ block 0 1\<rparr>]"

definition z2 :: "(int \<times> int) list region list" where
  "z2 = [\<lparr>r_name = ''Z2'', r_geometry = block 1 0\<rparr>]"

definition z3 :: "(int \<times> int) list region list" where
  "z3 = [\<lparr>r_name = ''Z3'', r_geometry = [(0, 0)]\<rparr>]"

definition z4 :: "(int \<times> int) list region list" where
  "z4 = [\<lparr>r_name = ''Z4'', r_geometry = block 1 1\<rparr>]"


definition zones_ab :: "(int \<times> int) list region list" where
  "zones_ab =
     [\<lparr>r_name = ''A'', r_geometry = block 0 0 @ block 1 0 @ block 1 1\<rparr>,
      \<lparr>r_name = ''B'', r_geometry = block 0 1\<rparr>]"

definition zones_we :: "(int \<times> int) list region list" where
  "zones_we =
     [\<lparr>r_name = ''W'', r_geometry = block 0 0 @ block 0 1 @ [(2, 0), (2, 1), (2, 2), (2, 3)]\<rparr>,
      \<lparr>r_name = ''E'', r_geometry = [(3, 0), (3, 1), (3, 2), (3, 3)]\<rparr>]"

section \<open>Properties of the steps\<close>

subsection \<open>The joins and the grouped sum\<close>

lemma set_sjoin:
  "set (sjoin wp gl gr left right) = {(l, r). l \<in> set left \<and> r \<in> set right \<and> wp (gl l) (gr r)}"
  by (auto simp: sjoin_def)

lemma members_iff:
  "(x, y) \<in> members wp grid regions bus \<longleftrightarrow>
     (\<exists>c\<in>set grid. \<exists>r\<in>set regions. c_x c = x \<and> c_y c = y \<and> r_name r = bus \<and> wp (c_geometry c) (r_geometry r))"
  by (force simp: members_def cell_list_def map_cell_to_region_def set_sjoin)

lemma map_of_graph:
  "map_of (map (\<lambda>k. (k, f k)) ks) k = (if k \<in> set ks then Some (f k) else None)"
  by (induction ks) auto

lemma groupby_lookup:
  "map_of (groupby_sum_area rows) k =
     (if k \<in> row_key ` set rows
      then Some (sum_list (map (\<lambda>r. b_area (fst r)) (filter (\<lambda>r. row_key r = k) rows)))
      else None)"
  by (simp add: groupby_sum_area_def map_of_graph)

lemma to_xarray_distinct: "distinct (da_y (to_xarray s))" "distinct (da_x (to_xarray s))"
  by (simp_all add: to_xarray_def)

lemma to_xarray_coords:
  assumes "da_val (to_xarray s) y x = Some v"
  shows "y \<in> set (da_y (to_xarray s)) \<and> x \<in> set (da_x (to_xarray s))"
proof -
  from assms have "((y, x), v) \<in> set s"
    by (simp add: to_xarray_def map_of_SomeD)
  then show ?thesis
    by (force simp: to_xarray_def)
qed

lemma bac_val:
  "da_val (building_area_in_cell wp buildings grid) y x =
     map_of (groupby_sum_area (buildings_in_cells wp buildings grid)) (y, x)"
  by (simp add: building_area_in_cell_def to_xarray_def)

lemma bac_distinct:
  "distinct (da_x (building_area_in_cell wp buildings grid))"
  "distinct (da_y (building_area_in_cell wp buildings grid))"
  by (simp_all add: building_area_in_cell_def to_xarray_distinct)

lemma bac_coords:
  "da_val (building_area_in_cell wp buildings grid) y x = Some v \<Longrightarrow>
     y \<in> set (da_y (building_area_in_cell wp buildings grid)) \<and> x \<in> set (da_x (building_area_in_cell wp buildings grid))"
  unfolding building_area_in_cell_def by (rule to_xarray_coords)

lemma bac_nonneg:
  assumes "list_all (\<lambda>b. 0 \<le> b_area b) buildings"
    and "da_val (building_area_in_cell wp buildings grid) y x = Some v"
  shows "0 \<le> v"
proof -
  let ?rows = "buildings_in_cells wp buildings grid"
  from assms(2) have v: "v = sum_list (map (\<lambda>r. b_area (fst r)) (filter (\<lambda>r. row_key r = (y, x)) ?rows))"
    by (simp add: bac_val groupby_lookup split: if_splits)
  have "0 \<le> b_area (fst r)" if "r \<in> set ?rows" for r
    using that assms(1) by (auto simp: buildings_in_cells_def set_sjoin list_all_iff)
  then show ?thesis
    unfolding v by (intro sum_list_nonneg) auto
qed

lemma weight_nonneg:
  assumes "list_all (\<lambda>b. 0 \<le> b_area b) buildings"
  shows "0 \<le> weight (building_area_in_cell wp buildings grid) c"
  using bac_nonneg [OF assms, of wp grid "snd c" "fst c"]
  by (cases "da_val (building_area_in_cell wp buildings grid) (snd c) (fst c)")
     (simp_all add: weight_def nan_to_zero_def)

lemma concat_nil: "concat (map (\<lambda>l. []) xs) = []"
  by (induction xs) simp_all

lemma empty_tables_no_area:
  assumes "buildings = [] \<or> grid = []"
  shows "da_val (building_area_in_cell wp buildings grid) y x = None"
  using assms by (auto simp: bac_val groupby_sum_area_def buildings_in_cells_def sjoin_def concat_nil)

subsection \<open>The loop over the buses\<close>

lemma selected_sub:
  "set (da_x (selected_data bac am m2r bus)) \<subseteq> set (am_x am)"
  "set (da_y (selected_data bac am m2r bus)) \<subseteq> set (am_y am)"
  by (auto simp: selected_data_def where_drop_def mask_def Let_def)

lemma divide_values_shape:
  "length (divide_values da d) = length (da_y da)"
  "\<not> list_ex (\<lambda>row. length row \<noteq> length (da_x da)) (divide_values da d)"
  by (auto simp: divide_values_def list_ex_iff)

lemma divide_values_lookup:
  "(case map_of (zip (da_y da) (divide_values da d)) y of
      None \<Rightarrow> z
    | Some row \<Rightarrow> (case map_of (zip (da_x da) row) x of None \<Rightarrow> z | Some v \<Rightarrow> v)) =
   (if y \<in> set (da_y da) \<and> x \<in> set (da_x da) then nan_divide (da_val da y x) d else z)"
  by (simp add: divide_values_def map_of_zip_map)

lemma assign_bus_result:
  assumes "bus \<in> set (am_bus am)"
  shows "assign_bus bac m2r bus am =
     Inr (am\<lparr>am_val := (\<lambda>b y x.
        if b = bus \<and> y \<in> set (da_y (selected_data bac am m2r bus)) \<and> x \<in> set (da_x (selected_data bac am m2r bus))
        then nan_divide (da_val (selected_data bac am m2r bus) y x) (da_sum (selected_data bac am m2r bus))
        else am_val am b y x)\<rparr>)"
  using assms selected_sub [of bac am m2r bus]
  by (auto simp: assign_bus_def loc_assign_def Let_def divide_values_shape divide_values_lookup
      intro!: arg_cong [where f = "\<lambda>f. am\<lparr>am_val := f\<rparr>"] ext)

lemma selected_data_coords:
  "am_x am' = am_x am \<Longrightarrow> am_y am' = am_y am \<Longrightarrow> selected_data bac am' m2r bus = selected_data bac am m2r bus"
  by (simp add: selected_data_def mask_def)

lemma assign_bus_val:
  assumes "bus \<in> set (am_bus am)"
  shows "\<exists>am'. assign_bus bac m2r bus am = Inr am' \<and> am_bus am' = am_bus am \<and> am_y am' = am_y am \<and> am_x am' = am_x am \<and>
     (\<forall>b y x. am_val am' b y x =
        (case (if b = bus then quotient (selected_data bac am m2r b) y x else None) of
           Some v \<Rightarrow> v | None \<Rightarrow> am_val am b y x))"
  unfolding assign_bus_result [OF assms] by (simp add: quotient_def)

lemma bus_loop_result:
  assumes "set bl \<subseteq> set (am_bus am)"
  shows "\<exists>am'. bus_loop bac m2r bl am = Inr am' \<and> am_bus am' = am_bus am \<and> am_y am' = am_y am \<and> am_x am' = am_x am \<and>
     (\<forall>b y x. am_val am' b y x =
        (case (if b \<in> set bl then quotient (selected_data bac am m2r b) y x else None) of
           Some v \<Rightarrow> v | None \<Rightarrow> am_val am b y x))"
  using assms
proof (induction bl arbitrary: am)
  case Nil
  then show ?case by simp
next
  case (Cons bus rest)
  from Cons.prems have "bus \<in> set (am_bus am)" by simp
  from assign_bus_val [OF this, of bac m2r] obtain am1 where
    a1: "assign_bus bac m2r bus am = Inr am1 \<and> am_bus am1 = am_bus am \<and> am_y am1 = am_y am \<and> am_x am1 = am_x am \<and>
     (\<forall>b y x. am_val am1 b y x =
        (case (if b = bus then quotient (selected_data bac am m2r b) y x else None) of
           Some v \<Rightarrow> v | None \<Rightarrow> am_val am b y x))" ..
  then have step: "assign_bus bac m2r bus am = Inr am1" and
    c1: "am_bus am1 = am_bus am" "am_y am1 = am_y am" "am_x am1 = am_x am" and
    v1: "\<And>b y x. am_val am1 b y x =
        (case (if b = bus then quotient (selected_data bac am m2r b) y x else None) of
           Some v \<Rightarrow> v | None \<Rightarrow> am_val am b y x)"
    by simp_all
  have sel: "selected_data bac am1 m2r b = selected_data bac am m2r b" for b
    by (rule selected_data_coords) (simp_all add: c1)
  have "set rest \<subseteq> set (am_bus am1)"
    using Cons.prems c1 by simp
  from Cons.IH [OF this] obtain am' where
    a2: "bus_loop bac m2r rest am1 = Inr am' \<and> am_bus am' = am_bus am1 \<and> am_y am' = am_y am1 \<and> am_x am' = am_x am1 \<and>
     (\<forall>b y x. am_val am' b y x =
        (case (if b \<in> set rest then quotient (selected_data bac am1 m2r b) y x else None) of
           Some v \<Rightarrow> v | None \<Rightarrow> am_val am1 b y x))" ..
  then have loop: "bus_loop bac m2r rest am1 = Inr am'" and
    c2: "am_bus am' = am_bus am1" "am_y am' = am_y am1" "am_x am' = am_x am1" and
    v2: "\<And>b y x. am_val am' b y x =
        (case (if b \<in> set rest then quotient (selected_data bac am1 m2r b) y x else None) of
           Some v \<Rightarrow> v | None \<Rightarrow> am_val am1 b y x)"
    by simp_all
  have "bus_loop bac m2r (bus # rest) am = Inr am'"
    using step loop by simp
  moreover have "am_val am' b y x =
        (case (if b \<in> set (bus # rest) then quotient (selected_data bac am m2r b) y x else None) of
           Some v \<Rightarrow> v | None \<Rightarrow> am_val am b y x)" for b y x
    by (simp add: v2 v1 sel split: option.split)
  ultimately show ?case
    using c1 c2 by simp
qed

subsection \<open>The selection of a bus\<close>

lemma set_unique [simp]: "set (unique xs) = set xs"
  by (simp add: unique_def)

lemma distinct_unique [simp]: "distinct (unique xs)"
  by (simp add: unique_def)

lemma members_grid:
  assumes "(x, y) \<in> members wp grid regions bus"
  shows "x \<in> c_x ` set grid" "y \<in> c_y ` set grid"
  using assms by (auto simp: members_iff)

lemma finite_members [simp]: "finite (members wp grid regions bus)"
  by (simp add: members_def)

lemma finite_box [simp]: "finite M \<Longrightarrow> finite (box M)"
  by (simp add: box_def)

lemma members_sub_box: "M \<subseteq> box M"
  by (force simp: box_def)

lemma box_grid:
  assumes "c \<in> box (members wp grid regions bus)"
  shows "fst c \<in> c_x ` set grid \<and> snd c \<in> c_y ` set grid"
proof -
  from assms obtain y' x' where "(fst c, y') \<in> members wp grid regions bus" "(x', snd c) \<in> members wp grid regions bus"
    by (auto simp: box_def)
  then show ?thesis
    using members_grid by blast
qed

lemma box_eq_iff: "box M = M \<longleftrightarrow> rectangle M"
proof
  assume "box M = M"
  then have "\<And>p q. p \<in> M \<Longrightarrow> q \<in> M \<Longrightarrow> (fst p, snd q) \<in> M"
    unfolding box_def by (metis (no_types, lifting) SigmaI imageI)
  then show "rectangle M"
    by (simp add: rectangle_def)
next
  assume r: "rectangle M"
  have "box M \<subseteq> M"
    using r by (auto simp: box_def rectangle_def)
  with members_sub_box [of M] show "box M = M"
    by blast
qed

lemma where_drop_labels:
  "y \<in> set (da_y (where_drop da cond)) \<and> x \<in> set (da_x (where_drop da cond)) \<longleftrightarrow>
     (y \<in> set (da_y da) \<and> y \<in> set (mk_y cond) \<and> (\<exists>x'. x' \<in> set (da_x da) \<and> x' \<in> set (mk_x cond) \<and> mk_val cond x' y)) \<and>
     (x \<in> set (da_x da) \<and> x \<in> set (mk_x cond) \<and> (\<exists>y'. y' \<in> set (da_y da) \<and> y' \<in> set (mk_y cond) \<and> mk_val cond x y'))"
  by (auto simp: where_drop_def Let_def list_ex_iff)

lemma selected_labels:
  assumes "am_x am = unique (map c_x grid)" "am_y am = unique (map c_y grid)"
    and "m2r = map_cell_to_region wp grid regions"
  shows "y \<in> set (da_y (selected_data bac am m2r bus)) \<and> x \<in> set (da_x (selected_data bac am m2r bus)) \<longleftrightarrow>
     (x, y) \<in> box (members wp grid regions bus) \<and> x \<in> set (da_x bac) \<and> y \<in> set (da_y bac)"
    (is "?L \<longleftrightarrow> ?R")
proof -
  let ?X = "fst ` members wp grid regions bus" and ?Y = "snd ` members wp grid regions bus"
  have gx: "x' \<in> c_x ` set grid" if "x' \<in> ?X" for x'
    using that members_grid(1) [of x' _ wp grid regions bus] by auto
  have gy: "y' \<in> c_y ` set grid" if "y' \<in> ?Y" for y'
    using that members_grid(2) [of _ y' wp grid regions bus] by auto
  have mv: "mk_val (mask am (cell_list m2r bus)) x' y' \<longleftrightarrow> x' \<in> ?X \<and> y' \<in> ?Y" for x' y'
    by (simp add: mask_def members_def assms(3))
  have mc: "set (mk_x (mask am (cell_list m2r bus))) = c_x ` set grid"
    "set (mk_y (mask am (cell_list m2r bus))) = c_y ` set grid"
    by (simp_all add: mask_def assms(1,2))
  have "?L \<longleftrightarrow> (y \<in> set (da_y bac) \<and> y \<in> c_y ` set grid \<and> (\<exists>x'. x' \<in> set (da_x bac) \<and> x' \<in> c_x ` set grid \<and> x' \<in> ?X \<and> y \<in> ?Y)) \<and>
     (x \<in> set (da_x bac) \<and> x \<in> c_x ` set grid \<and> (\<exists>y'. y' \<in> set (da_y bac) \<and> y' \<in> c_y ` set grid \<and> x \<in> ?X \<and> y' \<in> ?Y))"
    unfolding selected_data_def where_drop_labels mv mc ..
  also have "\<dots> \<longleftrightarrow> (x \<in> ?X \<and> y \<in> ?Y) \<and> x \<in> set (da_x bac) \<and> y \<in> set (da_y bac)"
    using gx gy by blast
  finally show ?thesis
    by (simp add: box_def)
qed

lemma selected_val:
  assumes "(x, y) \<in> box (members wp grid regions bus)"
    and "m2r = map_cell_to_region wp grid regions"
  shows "da_val (selected_data bac am m2r bus) y x = da_val bac y x"
  using assms by (simp add: selected_data_def where_drop_def mask_def Let_def box_def members_def)

lemma selected_distinct:
  assumes "distinct (da_x bac)" "distinct (da_y bac)"
  shows "distinct (da_x (selected_data bac am m2r bus))" "distinct (da_y (selected_data bac am m2r bus))"
  using assms by (simp_all add: selected_data_def where_drop_def Let_def)

lemma da_sum_set:
  assumes "distinct (da_x da)" "distinct (da_y da)"
  shows "da_sum da = (\<Sum>c\<in>set (da_x da) \<times> set (da_y da). nan_to_zero (da_val da (snd c) (fst c)))"
proof -
  have "da_sum da = (\<Sum>y\<in>set (da_y da). \<Sum>x\<in>set (da_x da). nan_to_zero (da_val da y x))"
    using assms by (simp add: da_sum_def sum_list_distinct_conv_sum_set)
  also have "\<dots> = (\<Sum>x\<in>set (da_x da). \<Sum>y\<in>set (da_y da). nan_to_zero (da_val da y x))"
    by (rule sum.swap)
  also have "\<dots> = (\<Sum>c\<in>set (da_x da) \<times> set (da_y da). nan_to_zero (da_val da (snd c) (fst c)))"
    by (simp add: sum.cartesian_product case_prod_unfold)
  finally show ?thesis .
qed

lemma selected_sum:
  assumes am: "am_x am = unique (map c_x grid)" "am_y am = unique (map c_y grid)"
    and m2r: "m2r = map_cell_to_region wp grid regions"
    and d: "distinct (da_x bac)" "distinct (da_y bac)"
    and wf: "\<And>y x v. da_val bac y x = Some v \<Longrightarrow> y \<in> set (da_y bac) \<and> x \<in> set (da_x bac)"
  shows "da_sum (selected_data bac am m2r bus) = sum (weight bac) (box (members wp grid regions bus))"
proof -
  let ?sel = "selected_data bac am m2r bus" and ?B = "box (members wp grid regions bus)"
  let ?S = "set (da_x ?sel) \<times> set (da_y ?sel)"
  have S: "c \<in> ?S \<longleftrightarrow> c \<in> ?B \<and> fst c \<in> set (da_x bac) \<and> snd c \<in> set (da_y bac)" for c
    using selected_labels [OF am m2r, of "snd c" bac bus "fst c"] by (cases c) auto
  have "da_sum ?sel = (\<Sum>c\<in>?S. nan_to_zero (da_val ?sel (snd c) (fst c)))"
    by (rule da_sum_set) (rule selected_distinct [OF d])+
  also have "\<dots> = (\<Sum>c\<in>?S. weight bac c)"
  proof (rule sum.cong [OF refl])
    fix c assume "c \<in> ?S"
    then have "(fst c, snd c) \<in> ?B" using S by simp
    from selected_val [OF this m2r] show "nan_to_zero (da_val ?sel (snd c) (fst c)) = weight bac c"
      by (simp add: weight_def)
  qed
  also have "\<dots> = (\<Sum>c\<in>?B. weight bac c)"
  proof (rule sum.mono_neutral_left)
    show "finite ?B" by simp
    show "?S \<subseteq> ?B" using S by blast
    show "\<forall>c\<in>?B - ?S. weight bac c = 0"
    proof
      fix c assume c: "c \<in> ?B - ?S"
      then have "\<not> (fst c \<in> set (da_x bac) \<and> snd c \<in> set (da_y bac))"
        using S by blast
      with wf [of "snd c" "fst c"] have "da_val bac (snd c) (fst c) = None"
        by (cases "da_val bac (snd c) (fst c)") auto
      then show "weight bac c = 0"
        by (simp add: weight_def nan_to_zero_def)
    qed
  qed
  finally show ?thesis .
qed

lemma mask_cells_iff:
  "(x, y) \<in> mask_cells m \<longleftrightarrow> x \<in> set (mk_x m) \<and> y \<in> set (mk_y m) \<and> mk_val m x y"
  by (auto simp: mask_cells_def)

lemma mask_product_general:
  assumes "am_x am = unique (map c_x grid)" "am_y am = unique (map c_y grid)"
  shows "mask_cells (mask am (cell_list (map_cell_to_region wp grid regions) bus)) =
           box (members wp grid regions bus)"
proof -
  let ?M = "members wp grid regions bus"
  let ?m = "mask am (cell_list (map_cell_to_region wp grid regions) bus)"
  have "(x, y) \<in> mask_cells ?m \<longleftrightarrow> (x, y) \<in> box ?M" for x y
  proof
    assume "(x, y) \<in> mask_cells ?m"
    then show "(x, y) \<in> box ?M"
      by (simp add: mask_cells_iff mask_def box_def members_def)
  next
    assume b: "(x, y) \<in> box ?M"
    from box_grid [OF this] have "x \<in> set (mk_x ?m)" "y \<in> set (mk_y ?m)"
      by (simp_all add: mask_def assms)
    with b show "(x, y) \<in> mask_cells ?m"
      by (simp add: mask_cells_iff) (simp add: mask_def box_def members_def)
  qed
  then show ?thesis
    by auto
qed

subsection \<open>The array of a region\<close>

lemma nan_divide_None [simp]: "nan_divide None d = NaN"
  by (simp add: nan_divide_def)

lemma availability_matrix_general:
  assumes d: "distinct (da_x bac)" "distinct (da_y bac)"
    and wf: "\<And>y x v. da_val bac y x = Some v \<Longrightarrow> y \<in> set (da_y bac) \<and> x \<in> set (da_x bac)"
  shows "\<exists>am. availability_matrix wp bac grid regions = Inr am \<and>
     am_bus am = map r_name regions \<and> am_y am = unique (map c_y grid) \<and> am_x am = unique (map c_x grid) \<and>
     (\<forall>b y x. am_val am b y x =
        (if b \<in> r_name ` set regions \<and> (x, y) \<in> box (members wp grid regions b)
         then nan_divide (da_val bac y x) (sum (weight bac) (box (members wp grid regions b)))
         else NaN))"
proof -
  let ?bl = "map r_name regions" and ?m2r = "map_cell_to_region wp grid regions"
  let ?am0 = "new_availability_matrix ?bl grid"
  have c0: "am_x ?am0 = unique (map c_x grid)" "am_y ?am0 = unique (map c_y grid)" "am_bus ?am0 = ?bl"
    by (simp_all add: new_availability_matrix_def)
  have v0: "am_val ?am0 b y x = NaN" for b y x
    by (simp add: new_availability_matrix_def)
  have "set ?bl \<subseteq> set (am_bus ?am0)"
    by (simp add: c0)
  from bus_loop_result [OF this, of bac ?m2r] obtain am where
    a: "bus_loop bac ?m2r ?bl ?am0 = Inr am \<and> am_bus am = am_bus ?am0 \<and> am_y am = am_y ?am0 \<and> am_x am = am_x ?am0 \<and>
     (\<forall>b y x. am_val am b y x =
        (case (if b \<in> set ?bl then quotient (selected_data bac ?am0 ?m2r b) y x else None) of
           Some v \<Rightarrow> v | None \<Rightarrow> am_val ?am0 b y x))" ..
  then have run: "availability_matrix wp bac grid regions = Inr am"
    by (simp add: availability_matrix_def Let_def)
  from a have av: "am_val am b y x =
        (case (if b \<in> set ?bl then quotient (selected_data bac ?am0 ?m2r b) y x else None) of
           Some v \<Rightarrow> v | None \<Rightarrow> NaN)" for b y x
    by (simp add: v0 split: option.split)
  have "am_val am b y x =
        (if b \<in> r_name ` set regions \<and> (x, y) \<in> box (members wp grid regions b)
         then nan_divide (da_val bac y x) (sum (weight bac) (box (members wp grid regions b)))
         else NaN)" for b y x
  proof (cases "b \<in> r_name ` set regions \<and> (x, y) \<in> box (members wp grid regions b)")
    case False
    then have "(if b \<in> set ?bl then quotient (selected_data bac ?am0 ?m2r b) y x else None) = None"
      using selected_labels [OF c0(1,2) refl, of y bac wp regions b x]
      by (auto simp: quotient_def)
    then show ?thesis
      unfolding av using False by auto
  next
    case True
    note sum = selected_sum [OF c0(1,2) refl d wf, where bus = b and wp = wp and regions = regions]
    note val = selected_val [OF True [THEN conjunct2] refl, where bac = bac and am = ?am0]
    show ?thesis
    proof (cases "x \<in> set (da_x bac) \<and> y \<in> set (da_y bac)")
      case in_coords: True
      then have "quotient (selected_data bac ?am0 ?m2r b) y x =
          Some (nan_divide (da_val bac y x) (sum (weight bac) (box (members wp grid regions b))))"
        using True selected_labels [OF c0(1,2) refl, of y bac wp regions b x] sum val
        by (simp add: quotient_def)
      then show ?thesis
        unfolding av using True by auto
    next
      case out: False
      then have "quotient (selected_data bac ?am0 ?m2r b) y x = None"
        using selected_labels [OF c0(1,2) refl, of y bac wp regions b x]
        by (auto simp: quotient_def)
      moreover from out wf [of y x] have "da_val bac y x = None"
        by (cases "da_val bac y x") auto
      ultimately show ?thesis
        unfolding av using True by auto
    qed
  qed
  with run a c0 show ?thesis
    by simp
qed

lemma availability_matrix_entries:
  "\<exists>am. availability_matrix wp (building_area_in_cell wp buildings grid) grid regions = Inr am \<and>
     am_bus am = map r_name regions \<and> am_y am = unique (map c_y grid) \<and> am_x am = unique (map c_x grid) \<and>
     (\<forall>b y x. am_val am b y x =
        (if b \<in> r_name ` set regions \<and> (x, y) \<in> box (members wp grid regions b)
         then nan_divide (da_val (building_area_in_cell wp buildings grid) y x)
                (sum (weight (building_area_in_cell wp buildings grid)) (box (members wp grid regions b)))
         else NaN))"
  by (rule availability_matrix_general [OF bac_distinct]) (rule bac_coords)

lemma entry_eq:
  "entry (availability_matrix wp (building_area_in_cell wp buildings grid) grid regions) bus y x =
     Some (if bus \<in> r_name ` set regions \<and> (x, y) \<in> box (members wp grid regions bus)
           then nan_divide (da_val (building_area_in_cell wp buildings grid) y x)
                  (sum (weight (building_area_in_cell wp buildings grid)) (box (members wp grid regions bus)))
           else NaN)"
  using availability_matrix_entries [where wp = wp and buildings = buildings and grid = grid and regions = regions]
  by (auto simp: entry_def)

lemma selected_sum_bac:
  "da_sum (selected_data (building_area_in_cell wp buildings grid)
      (new_availability_matrix bl grid) (map_cell_to_region wp grid regions) bus) =
   sum (weight (building_area_in_cell wp buildings grid)) (box (members wp grid regions bus))"
proof (rule selected_sum [OF _ _ refl bac_distinct])
  show "am_x (new_availability_matrix bl grid) = unique (map c_x grid)"
    "am_y (new_availability_matrix bl grid) = unique (map c_y grid)"
    by (simp_all add: new_availability_matrix_def)
qed (rule bac_coords)

lemma availability_matrix_returns:
  "\<exists>am. availability_matrix wp bac grid regions = Inr am"
proof -
  have "set (map r_name regions) \<subseteq> set (am_bus (new_availability_matrix (map r_name regions) grid))"
    by (simp add: new_availability_matrix_def)
  from bus_loop_result [OF this, of bac "map_cell_to_region wp grid regions"]
  show ?thesis
    unfolding availability_matrix_def Let_def by blast
qed

lemma fin_or_zero_divide:
  "d \<noteq> 0 \<Longrightarrow> fin_or_zero (nan_divide v d) = nan_to_zero v / d"
  by (cases v) (simp_all add: fin_or_zero_def nan_divide_def np_divide_def nan_to_zero_def)

lemma nonneg_divide:
  assumes "0 < d" "\<And>a. v = Some a \<Longrightarrow> 0 \<le> a"
  shows "nonneg_or_nan (nan_divide v d)"
  using assms by (cases v) (simp_all add: nonneg_or_nan_def nan_divide_def np_divide_def)

lemma defined_sum_set:
  assumes "am_x am = unique xs" "am_y am = unique ys"
  shows "defined_sum am bus = (\<Sum>c\<in>set xs \<times> set ys. fin_or_zero (am_val am bus (snd c) (fst c)))"
proof -
  have "defined_sum am bus = (\<Sum>y\<in>set ys. \<Sum>x\<in>set xs. fin_or_zero (am_val am bus y x))"
    by (simp add: defined_sum_def assms sum_list_distinct_conv_sum_set)
  also have "\<dots> = (\<Sum>x\<in>set xs. \<Sum>y\<in>set ys. fin_or_zero (am_val am bus y x))"
    by (rule sum.swap)
  also have "\<dots> = (\<Sum>c\<in>set xs \<times> set ys. fin_or_zero (am_val am bus (snd c) (fst c)))"
    by (simp add: sum.cartesian_product case_prod_unfold)
  finally show ?thesis .
qed

subsection \<open>The loop over the regions\<close>

lemma region_loop_result:
  "\<exists>evs. region_loop wp bac grid srs = Inr evs \<and> length evs = 2 * length srs \<and>
     printed evs = map fst srs \<and> map fst (written evs) = map fst srs \<and>
     map (\<lambda>w. Inr (snd w)) (written evs) = map (\<lambda>kv. availability_matrix wp bac grid (snd kv)) srs"
proof (induction srs)
  case Nil
  show ?case by simp
next
  case (Cons kv rest)
  obtain am where am: "availability_matrix wp bac grid (snd kv) = Inr am"
    using availability_matrix_returns by blast
  from Cons.IH obtain evs where
    e: "region_loop wp bac grid rest = Inr evs \<and> length evs = 2 * length rest \<and>
     printed evs = map fst rest \<and> map fst (written evs) = map fst rest \<and>
     map (\<lambda>w. Inr (snd w)) (written evs) = map (\<lambda>kv. availability_matrix wp bac grid (snd kv)) rest" ..
  have "region_loop wp bac grid (kv # rest) = Inr (Print (fst kv) # To_netcdf (fst kv) am # evs)"
    using am e by simp
  then show ?case
    using am e by simp
qed

lemma written_matrix:
  assumes "(k, regions) \<in> set srs"
    and "map fst (written evs) = map fst srs"
    and "map (\<lambda>w. Inr (snd w)) (written evs) = map (\<lambda>kv. f (snd kv)) srs"
    and "f regions = Inr am"
  shows "(k, am) \<in> set (written evs)"
proof -
  from assms(1) obtain i where i: "i < length srs" "srs ! i = (k, regions)"
    by (auto simp: in_set_conv_nth)
  from assms(2) have len: "length (written evs) = length srs"
    by (rule map_eq_imp_length_eq)
  from assms(2) i len have "fst (written evs ! i) = k"
    by (metis fst_conv nth_map)
  moreover from assms(3) i len have "Inr (snd (written evs ! i)) = f regions"
    by (metis nth_map snd_conv)
  ultimately have "written evs ! i = (k, am)"
    using assms(4) by (metis old.sum.inject(2) prod.collapse)
  with i len show ?thesis
    by (metis nth_mem)
qed

lemma written_source:
  assumes "(k, am) \<in> set (written evs)"
    and "map (\<lambda>w. Inr (snd w)) (written evs) = map (\<lambda>kv. f (snd kv)) srs"
  shows "\<exists>kv\<in>set srs. f (snd kv) = Inr am"
proof -
  from assms(1) have "Inr am \<in> set (map (\<lambda>w. Inr (snd w)) (written evs))"
    by force
  with assms(2) have "Inr am \<in> set (map (\<lambda>kv. f (snd kv)) srs)"
    by (rule subst)
  then obtain kv where "kv \<in> set srs" "f (snd kv) = Inr am"
    by (auto simp: image_iff)
  then show ?thesis
    by blast
qed

subsection \<open>The weight of a cell by features\<close>

lemma buildings_in_cells_Cons:
  "buildings_in_cells wp (b # bs) grid =
     map (\<lambda>c. (b, c)) (filter (\<lambda>c. wp (b_geometry b) (c_geometry c)) grid) @ buildings_in_cells wp bs grid"
  by (simp add: buildings_in_cells_def sjoin_def)

lemma buildings_in_cells_Nil: "buildings_in_cells wp [] grid = []"
  by (simp add: buildings_in_cells_def sjoin_def)

lemma sum_list_const: "(\<Sum>x\<leftarrow>xs. (a::real)) = a * real (length xs)"
  by (induction xs) (simp_all add: algebra_simps)

lemma key_area:
  "(\<Sum>r\<leftarrow>filter (\<lambda>r. row_key r = k) (buildings_in_cells wp bs grid). b_area (fst r)) =
     (\<Sum>b\<leftarrow>bs. b_area b * real (hits wp grid (b_geometry b) k))"
proof (induction bs)
  case Nil
  show ?case by (simp add: buildings_in_cells_Nil)
next
  case (Cons b bs)
  have "(\<Sum>r\<leftarrow>filter (\<lambda>r. row_key r = k) (map (\<lambda>c. (b, c)) (filter (\<lambda>c. wp (b_geometry b) (c_geometry c)) grid)). b_area (fst r)) =
        b_area b * real (hits wp grid (b_geometry b) k)"
    by (simp add: filter_map comp_def row_key_def hits_def sum_list_const)
  with Cons.IH show ?case
    by (simp add: buildings_in_cells_Cons)
qed

lemma key_present:
  "k \<in> row_key ` set (buildings_in_cells wp bs grid) \<longleftrightarrow> (\<exists>b\<in>set bs. 0 < hits wp grid (b_geometry b) k)"
  by (force simp: buildings_in_cells_def set_sjoin row_key_def hits_def length_greater_0_conv filter_empty_conv)

lemma bac_hits:
  "da_val (building_area_in_cell wp bs grid) y x =
     (if \<exists>b\<in>set bs. 0 < hits wp grid (b_geometry b) (y, x)
      then Some (\<Sum>b\<leftarrow>bs. b_area b * real (hits wp grid (b_geometry b) (y, x)))
      else None)"
  by (simp add: bac_val groupby_lookup key_area key_present)

lemma hits_distinct:
  assumes "distinct (map (\<lambda>c. (c_x c, c_y c)) grid)" "c \<in> set grid"
  shows "hits wp grid g (c_y c, c_x c) = (if wp g (c_geometry c) then 1 else 0)"
proof -
  have same: "c' = c" if "c' \<in> set grid" "c_x c' = c_x c" "c_y c' = c_y c" for c'
    using assms that by (auto simp: distinct_map inj_on_def)
  have d: "distinct grid"
    using assms(1) by (simp add: distinct_map)
  have "{c'. wp g (c_geometry c') \<and> (c_y c', c_x c') = (c_y c, c_x c)} \<inter> set grid =
        (if wp g (c_geometry c) then {c} else {})"
    using same assms(2) by auto
  then show ?thesis
    unfolding hits_def distinct_length_filter [OF d] by simp
qed

lemma sum_list_filter_if:
  "(\<Sum>b\<leftarrow>bs. f b * real (if P b then 1 else 0 :: nat)) = sum_list (map f (filter P bs))"
  by (induction bs) simp_all






subsection \<open>The scenarios, evaluated\<close>

lemma z1_members: "members pixel_within grid4 z1 ''Z1'' = {(0, 0), (0, 1)}"
  by (auto simp: members_def cell_list_def map_cell_to_region_def sjoin_def pixel_within_def grid4_def z1_def block_def)

lemma z2_members: "members pixel_within grid4 z2 ''Z2'' = {(1, 0)}"
  by (auto simp: members_def cell_list_def map_cell_to_region_def sjoin_def pixel_within_def grid4_def z2_def block_def)

lemma z3_members: "members pixel_within grid4 z3 ''Z3'' = {}"
  by (simp add: members_def cell_list_def map_cell_to_region_def sjoin_def pixel_within_def grid4_def z3_def block_def)


lemma ab_members:
  "members pixel_within grid4 zones_ab ''A'' = {(0, 0), (1, 0), (1, 1)}"
  "members pixel_within grid4 zones_ab ''B'' = {(0, 1)}"
  by (auto simp: members_def cell_list_def map_cell_to_region_def sjoin_def pixel_within_def grid4_def zones_ab_def block_def)

lemma feats_groupby: "groupby_sum_area (buildings_in_cells pixel_within feats grid4) = [((0, 0), 10), ((1, 0), 30)]"
  by (simp add: groupby_sum_area_def buildings_in_cells_def sjoin_def pixel_within_def feats_def grid4_def block_def row_key_def)

lemma feats_weight:
  "weight (building_area_in_cell pixel_within feats grid4) (0, 0) = 10"
  "weight (building_area_in_cell pixel_within feats grid4) (0, 1) = 30"
  by (simp_all add: weight_def bac_val feats_groupby nan_to_zero_def)

lemma feats0_groupby:
  "groupby_sum_area (buildings_in_cells pixel_within feats0 grid4) = [((0, 0), 10), ((0, 1), 0), ((1, 0), 30)]"
  by (simp add: groupby_sum_area_def buildings_in_cells_def sjoin_def pixel_within_def feats0_def feats_def grid4_def block_def row_key_def)



section \<open>The claims\<close>

subsection \<open>Claim C1\<close>

text \<open>
  Claim C1. For a bus whose member cells carry a total weight other than zero, feature
  weights being non-negative, every entry of the bus in the written array is NaN
  (undefined) or a non-negative number, and the defined entries sum to 1, hence to 1
  within 1e-9. Areas are exact reals here.
\<close>

theorem normalised_sum_one:
  assumes nonneg: "list_all (\<lambda>b. 0 \<le> b_area b) buildings"
    and bus: "bus \<in> set (map r_name regions)"
    and total: "sum (weight (building_area_in_cell wp buildings grid)) (members wp grid regions bus) \<noteq> 0"
  shows "\<exists>am. availability_matrix wp (building_area_in_cell wp buildings grid) grid regions = Inr am \<and>
     (\<forall>y x. nonneg_or_nan (am_val am bus y x)) \<and>
     defined_sum am bus = 1 \<and> \<bar>defined_sum am bus - 1\<bar> \<le> 1 / 10 ^ 9"
proof -
  let ?bac = "building_area_in_cell wp buildings grid"
  let ?M = "members wp grid regions bus"
  let ?T = "sum (weight ?bac) (box ?M)"
  from availability_matrix_entries [where wp = wp and buildings = buildings and grid = grid and regions = regions] obtain am where
    a: "availability_matrix wp ?bac grid regions = Inr am \<and>
     am_bus am = map r_name regions \<and> am_y am = unique (map c_y grid) \<and> am_x am = unique (map c_x grid) \<and>
     (\<forall>b y x. am_val am b y x =
        (if b \<in> r_name ` set regions \<and> (x, y) \<in> box (members wp grid regions b)
         then nan_divide (da_val ?bac y x) (sum (weight ?bac) (box (members wp grid regions b)))
         else NaN))" ..
  from a bus have av: "am_val am bus y x =
        (if (x, y) \<in> box ?M then nan_divide (da_val ?bac y x) ?T else NaN)" for y x
    by simp
  have w0: "0 \<le> weight ?bac c" for c
    by (rule weight_nonneg [OF nonneg])
  have "0 \<le> sum (weight ?bac) ?M"
    by (rule sum_nonneg) (rule w0)
  with total have "0 < sum (weight ?bac) ?M"
    by simp
  also have "sum (weight ?bac) ?M \<le> ?T"
    by (rule sum_mono2) (simp_all add: members_sub_box w0)
  finally have T: "0 < ?T" .
  have nn: "nonneg_or_nan (am_val am bus y x)" for y x
  proof (cases "(x, y) \<in> box ?M")
    case True
    then show ?thesis
      unfolding av using nonneg_divide [OF T, of "da_val ?bac y x"] bac_nonneg [OF nonneg, of wp grid y x]
      by simp
  next
    case False
    then show ?thesis
      unfolding av by (simp add: nonneg_or_nan_def)
  qed
  have "defined_sum am bus =
      (\<Sum>c\<in>c_x ` set grid \<times> c_y ` set grid. fin_or_zero (am_val am bus (snd c) (fst c)))"
    using defined_sum_set [of am "map c_x grid" "map c_y grid" bus] a by simp
  also have "\<dots> = (\<Sum>c\<in>box ?M. fin_or_zero (am_val am bus (snd c) (fst c)))"
  proof (rule sum.mono_neutral_right)
    show "finite (c_x ` set grid \<times> c_y ` set grid)" by simp
    show "box ?M \<subseteq> c_x ` set grid \<times> c_y ` set grid"
      using box_grid [of _ wp grid regions bus] by (auto simp: mem_Times_iff)
    show "\<forall>c\<in>c_x ` set grid \<times> c_y ` set grid - box ?M. fin_or_zero (am_val am bus (snd c) (fst c)) = 0"
      by (auto simp: av fin_or_zero_def)
  qed
  also have "\<dots> = (\<Sum>c\<in>box ?M. weight ?bac c / ?T)"
  proof (rule sum.cong [OF refl])
    fix c assume "c \<in> box ?M"
    then have "(fst c, snd c) \<in> box ?M" by simp
    then show "fin_or_zero (am_val am bus (snd c) (fst c)) = weight ?bac c / ?T"
      using T by (simp add: av fin_or_zero_divide weight_def)
  qed
  also have "\<dots> = ?T / ?T"
    by (rule sum_divide_distrib [symmetric])
  also have "\<dots> = 1"
    using T by simp
  finally have one: "defined_sum am bus = 1" .
  show ?thesis
    using a nn one by (intro exI [of _ am]) simp
qed

theorem normalised_sum_one_witness:
  "\<exists>am. availability_matrix pixel_within (building_area_in_cell pixel_within feats grid4) grid4 z1 = Inr am \<and>
     (\<forall>y x. nonneg_or_nan (am_val am ''Z1'' y x)) \<and>
     defined_sum am ''Z1'' = 1 \<and> \<bar>defined_sum am ''Z1'' - 1\<bar> \<le> 1 / 10 ^ 9"
proof (rule normalised_sum_one)
  show "list_all (\<lambda>b. 0 \<le> b_area b) feats"
    by (simp add: feats_def)
  show "''Z1'' \<in> set (map r_name z1)"
    by (simp add: z1_def)
  show "sum (weight (building_area_in_cell pixel_within feats grid4)) (members pixel_within grid4 z1 ''Z1'') \<noteq> 0"
    by (simp add: z1_members feats_weight)
qed

subsection \<open>Claim C2\<close>

text \<open>
  Claim C2 says that a cell with a defined value for a bus is a member cell of that bus.
  The mask tests the \<open>x\<close> labels and the \<open>y\<close> labels of \<open>cell_list\<close> apart, so it also
  holds at cells that pair the \<open>x\<close> of one member cell with the \<open>y\<close> of another. With the
  zone A in the shape of an L, the cell \<open>(0, 1)\<close> belongs to zone B and not to A, and the
  array of A holds the value 3/4 there.
\<close>

theorem leak_into_other_zone:
  "(0, 1) \<notin> members pixel_within grid4 zones_ab ''A'' \<and>
   (0, 1) \<in> members pixel_within grid4 zones_ab ''B'' \<and>
   entry (availability_matrix pixel_within (building_area_in_cell pixel_within feats grid4) grid4 zones_ab)
     ''A'' 1 0 = Some (Fin (3 / 4))"
proof -
  have bx: "box (members pixel_within grid4 zones_ab ''A'') = {(0, 0), (0, 1), (1, 0), (1, 1)}"
    by (auto simp: ab_members box_def)
  have "''A'' \<in> r_name ` set zones_ab"
    by (simp add: zones_ab_def)
  then have "entry (availability_matrix pixel_within (building_area_in_cell pixel_within feats grid4) grid4 zones_ab)
     ''A'' 1 0 = Some (Fin (3 / 4))"
    unfolding entry_eq bx
    by (simp add: weight_def bac_val feats_groupby nan_to_zero_def nan_divide_def np_divide_def)
  then show ?thesis
    by (simp add: ab_members)
qed

subsection \<open>Claim C3\<close>

text \<open>
  Claim C3. For a bus of the region, the cells at which the mask holds are exactly the
  pairs of an \<open>x\<close> and a \<open>y\<close> of its member cells; they include the member cells and are
  the member cells exactly when these form a rectangle, that is, hold every pair of an
  \<open>x\<close> and a \<open>y\<close> that occur in them. The divisor of the normalisation is the total
  weight of the cells of the mask, and the written array of the bus is the weight
  divided by it at the cells of the mask (NaN where a cell has no weight), and NaN
  elsewhere. The selection drops the labels that \<open>building_area_in_cell\<close> does not
  have; a cell of the mask with such a label has no weight and stays NaN.
\<close>

theorem mask_is_product:
  assumes "bus \<in> set (map r_name regions)"
  shows "mask_cells (mask (new_availability_matrix (map r_name regions) grid)
             (cell_list (map_cell_to_region wp grid regions) bus)) =
           fst ` members wp grid regions bus \<times> snd ` members wp grid regions bus \<and>
         members wp grid regions bus \<subseteq>
           mask_cells (mask (new_availability_matrix (map r_name regions) grid)
             (cell_list (map_cell_to_region wp grid regions) bus)) \<and>
         (mask_cells (mask (new_availability_matrix (map r_name regions) grid)
             (cell_list (map_cell_to_region wp grid regions) bus)) = members wp grid regions bus
            \<longleftrightarrow> rectangle (members wp grid regions bus)) \<and>
         da_sum (selected_data (building_area_in_cell wp buildings grid)
             (new_availability_matrix (map r_name regions) grid) (map_cell_to_region wp grid regions) bus) =
           sum (weight (building_area_in_cell wp buildings grid))
             (mask_cells (mask (new_availability_matrix (map r_name regions) grid)
                (cell_list (map_cell_to_region wp grid regions) bus))) \<and>
         (\<exists>am. availability_matrix wp (building_area_in_cell wp buildings grid) grid regions = Inr am \<and>
            (\<forall>y x. am_val am bus y x =
               (if (x, y) \<in> mask_cells (mask (new_availability_matrix (map r_name regions) grid)
                     (cell_list (map_cell_to_region wp grid regions) bus))
                then nan_divide (da_val (building_area_in_cell wp buildings grid) y x)
                       (da_sum (selected_data (building_area_in_cell wp buildings grid)
                          (new_availability_matrix (map r_name regions) grid)
                          (map_cell_to_region wp grid regions) bus))
                else NaN)))"
proof -
  let ?M = "members wp grid regions bus"
  have eq: "mask_cells (mask (new_availability_matrix (map r_name regions) grid)
             (cell_list (map_cell_to_region wp grid regions) bus)) = box ?M"
    by (rule mask_product_general) (simp_all add: new_availability_matrix_def)
  from availability_matrix_entries [where wp = wp and buildings = buildings and grid = grid and regions = regions]
  obtain am where
    a: "availability_matrix wp (building_area_in_cell wp buildings grid) grid regions = Inr am" and
    v: "\<And>y x. am_val am bus y x =
          (if (x, y) \<in> box ?M
           then nan_divide (da_val (building_area_in_cell wp buildings grid) y x)
                  (sum (weight (building_area_in_cell wp buildings grid)) (box ?M))
           else NaN)"
    using assms by auto
  have "box ?M = fst ` ?M \<times> snd ` ?M"
    by (simp add: box_def)
  moreover have "?M \<subseteq> box ?M"
    by (rule members_sub_box)
  moreover have "box ?M = ?M \<longleftrightarrow> rectangle ?M"
    by (rule box_eq_iff)
  ultimately show ?thesis
    unfolding eq selected_sum_bac using a v by blast
qed

theorem mask_is_product_witness:
  "mask_cells (mask (new_availability_matrix (map r_name zones_ab) grid4)
       (cell_list (map_cell_to_region pixel_within grid4 zones_ab) ''A'')) =
     fst ` members pixel_within grid4 zones_ab ''A'' \<times> snd ` members pixel_within grid4 zones_ab ''A'' \<and>
   members pixel_within grid4 zones_ab ''A'' \<subseteq>
     mask_cells (mask (new_availability_matrix (map r_name zones_ab) grid4)
       (cell_list (map_cell_to_region pixel_within grid4 zones_ab) ''A'')) \<and>
   (mask_cells (mask (new_availability_matrix (map r_name zones_ab) grid4)
       (cell_list (map_cell_to_region pixel_within grid4 zones_ab) ''A'')) =
      members pixel_within grid4 zones_ab ''A''
      \<longleftrightarrow> rectangle (members pixel_within grid4 zones_ab ''A'')) \<and>
   da_sum (selected_data (building_area_in_cell pixel_within feats grid4)
       (new_availability_matrix (map r_name zones_ab) grid4) (map_cell_to_region pixel_within grid4 zones_ab) ''A'') =
     sum (weight (building_area_in_cell pixel_within feats grid4))
       (mask_cells (mask (new_availability_matrix (map r_name zones_ab) grid4)
          (cell_list (map_cell_to_region pixel_within grid4 zones_ab) ''A''))) \<and>
   (\<exists>am. availability_matrix pixel_within (building_area_in_cell pixel_within feats grid4) grid4 zones_ab = Inr am \<and>
      (\<forall>y x. am_val am ''A'' y x =
         (if (x, y) \<in> mask_cells (mask (new_availability_matrix (map r_name zones_ab) grid4)
               (cell_list (map_cell_to_region pixel_within grid4 zones_ab) ''A''))
          then nan_divide (da_val (building_area_in_cell pixel_within feats grid4) y x)
                 (da_sum (selected_data (building_area_in_cell pixel_within feats grid4)
                    (new_availability_matrix (map r_name zones_ab) grid4)
                    (map_cell_to_region pixel_within grid4 zones_ab) ''A''))
          else NaN)))"
  by (rule mask_is_product) (simp add: zones_ab_def)

subsection \<open>Claim C4\<close>

text \<open>
  Claim C4 says that a zone of total weight zero is left unset without a division by
  zero and without NaN. The script has no guard: it divides by the zero total, and NaN
  is both the result and the marker of an unset entry. As amended: for a bus whose
  member cells form a rectangle and carry the total weight zero, feature weights being
  non-negative, the divisor of the normalisation is 0 and every entry of the bus in the
  written array is NaN.
\<close>

theorem zero_total_all_nan:
  assumes nonneg: "list_all (\<lambda>b. 0 \<le> b_area b) buildings"
    and bus: "bus \<in> set (map r_name regions)"
    and rect: "rectangle (members wp grid regions bus)"
    and total: "sum (weight (building_area_in_cell wp buildings grid)) (members wp grid regions bus) = 0"
  shows "\<exists>am. availability_matrix wp (building_area_in_cell wp buildings grid) grid regions = Inr am \<and>
     da_sum (selected_data (building_area_in_cell wp buildings grid)
        (new_availability_matrix (map r_name regions) grid) (map_cell_to_region wp grid regions) bus) = 0 \<and>
     (\<forall>y x. am_val am bus y x = NaN)"
proof -
  let ?bac = "building_area_in_cell wp buildings grid"
  let ?M = "members wp grid regions bus"
  from availability_matrix_entries [where wp = wp and buildings = buildings and grid = grid and regions = regions]
  obtain am where
    a: "availability_matrix wp ?bac grid regions = Inr am \<and>
     am_bus am = map r_name regions \<and> am_y am = unique (map c_y grid) \<and> am_x am = unique (map c_x grid) \<and>
     (\<forall>b y x. am_val am b y x =
        (if b \<in> r_name ` set regions \<and> (x, y) \<in> box (members wp grid regions b)
         then nan_divide (da_val ?bac y x) (sum (weight ?bac) (box (members wp grid regions b)))
         else NaN))" ..
  have bx: "box ?M = ?M"
    using rect by (simp add: box_eq_iff)
  from a bus have av: "am_val am bus y x =
        (if (x, y) \<in> ?M then nan_divide (da_val ?bac y x) 0 else NaN)" for y x
    by (simp add: bx total)
  have w0: "0 \<le> weight ?bac c" for c
    by (rule weight_nonneg [OF nonneg])
  have wz: "weight ?bac c = 0" if "c \<in> ?M" for c
    using total that w0 by (simp add: sum_nonneg_eq_0_iff)
  have "am_val am bus y x = NaN" for y x
  proof (cases "(x, y) \<in> ?M")
    case True
    from wz [OF this] show ?thesis
      unfolding av using True
      by (cases "da_val ?bac y x") (simp_all add: weight_def nan_to_zero_def nan_divide_def np_divide_def)
  next
    case False
    then show ?thesis by (simp add: av)
  qed
  moreover have "da_sum (selected_data ?bac (new_availability_matrix (map r_name regions) grid)
      (map_cell_to_region wp grid regions) bus) = 0"
    by (simp add: selected_sum_bac bx total)
  ultimately show ?thesis
    using a by blast
qed

theorem zero_total_all_nan_witness:
  "\<exists>am. availability_matrix pixel_within (building_area_in_cell pixel_within feats0 grid4) grid4 z2 = Inr am \<and>
     da_sum (selected_data (building_area_in_cell pixel_within feats0 grid4)
        (new_availability_matrix (map r_name z2) grid4) (map_cell_to_region pixel_within grid4 z2) ''Z2'') = 0 \<and>
     (\<forall>y x. am_val am ''Z2'' y x = NaN)"
proof (rule zero_total_all_nan)
  show "list_all (\<lambda>b. 0 \<le> b_area b) feats0"
    by (simp add: feats0_def feats_def)
  show "''Z2'' \<in> set (map r_name z2)"
    by (simp add: z2_def)
  show "rectangle (members pixel_within grid4 z2 ''Z2'')"
    by (simp add: z2_members rectangle_def)
  show "sum (weight (building_area_in_cell pixel_within feats0 grid4)) (members pixel_within grid4 z2 ''Z2'') = 0"
    by (simp add: z2_members weight_def bac_val feats0_groupby nan_to_zero_def)
qed

text \<open>
  The zone Z2 is the one cell \<open>(1, 0)\<close>, which holds a footprint of area 0: the selected
  value is 0, the divisor is 0, and the array assigned is the single NaN of \<open>0 / 0\<close>.
  The zone Z4 is the one cell \<open>(1, 1)\<close>, which holds no feature: the selected value is
  NaN, the divisor is 0, and the array assigned is the single NaN of that division.
\<close>

theorem zero_total_counterexample:
  "da_val (selected_data (building_area_in_cell pixel_within feats0 grid4)
      (new_availability_matrix [''Z2''] grid4) (map_cell_to_region pixel_within grid4 z2) ''Z2'') 0 1 = Some 0 \<and>
   da_sum (selected_data (building_area_in_cell pixel_within feats0 grid4)
      (new_availability_matrix [''Z2''] grid4) (map_cell_to_region pixel_within grid4 z2) ''Z2'') = 0 \<and>
   divide_values (selected_data (building_area_in_cell pixel_within feats0 grid4)
      (new_availability_matrix [''Z2''] grid4) (map_cell_to_region pixel_within grid4 z2) ''Z2'') 0 = [[NaN]] \<and>
   da_val (selected_data (building_area_in_cell pixel_within feats0 grid4)
      (new_availability_matrix [''Z4''] grid4) (map_cell_to_region pixel_within grid4 z4) ''Z4'') 1 1 = None \<and>
   da_sum (selected_data (building_area_in_cell pixel_within feats0 grid4)
      (new_availability_matrix [''Z4''] grid4) (map_cell_to_region pixel_within grid4 z4) ''Z4'') = 0 \<and>
   divide_values (selected_data (building_area_in_cell pixel_within feats0 grid4)
      (new_availability_matrix [''Z4''] grid4) (map_cell_to_region pixel_within grid4 z4) ''Z4'') 0 = [[NaN]]"
proof -
  have m2: "map_cell_to_region pixel_within grid4 z2 = [(1, 0, ''Z2'')]"
    by (simp add: map_cell_to_region_def sjoin_def pixel_within_def grid4_def z2_def block_def)
  have m4: "map_cell_to_region pixel_within grid4 z4 = [(1, 1, ''Z4'')]"
    by (simp add: map_cell_to_region_def sjoin_def pixel_within_def grid4_def z4_def block_def)
  have b: "building_area_in_cell pixel_within feats0 grid4 =
      \<lparr>da_y = [0, 1], da_x = [0, 1], da_val = (\<lambda>y x. map_of [((0, 0), 10), ((0, 1), 0), ((1, 0), 30)] (y, x))\<rparr>"
    by (simp add: building_area_in_cell_def feats0_groupby to_xarray_def)
  show ?thesis
    unfolding m2 m4 b
    by (simp add: selected_data_def where_drop_def mask_def cell_list_def new_availability_matrix_def unique_def
        grid4_def da_sum_def nan_to_zero_def divide_values_def nan_divide_def np_divide_def Let_def)
qed

subsection \<open>Claim C5\<close>

text \<open>
  Claim C5 says that every feature is assigned to exactly one cell, that of its
  representative location. The join is on the whole footprint: a footprint that crosses
  a cell border is within no cell and is dropped. As amended: a feature is assigned to
  exactly the cells that its footprint is within, and, the labels of the grid being
  distinct, the weight of a cell is the sum of the areas of exactly the features within
  it, and is absent (NaN) when there is none.
\<close>

theorem cell_weight_is_sum_of_contained:
  assumes "distinct (map (\<lambda>c. (c_x c, c_y c)) grid)" "c \<in> set grid"
  shows "(\<forall>b c'. (b, c') \<in> set (buildings_in_cells wp buildings grid) \<longleftrightarrow>
            b \<in> set buildings \<and> c' \<in> set grid \<and> wp (b_geometry b) (c_geometry c')) \<and>
         da_val (building_area_in_cell wp buildings grid) (c_y c) (c_x c) =
           (if \<exists>b\<in>set buildings. wp (b_geometry b) (c_geometry c)
            then Some (sum_list (map b_area (filter (\<lambda>b. wp (b_geometry b) (c_geometry c)) buildings)))
            else None)"
proof -
  have h: "hits wp grid g (c_y c, c_x c) = (if wp g (c_geometry c) then 1 else 0)" for g
    by (rule hits_distinct [OF assms])
  have "da_val (building_area_in_cell wp buildings grid) (c_y c) (c_x c) =
           (if \<exists>b\<in>set buildings. wp (b_geometry b) (c_geometry c)
            then Some (sum_list (map b_area (filter (\<lambda>b. wp (b_geometry b) (c_geometry c)) buildings)))
            else None)"
    unfolding bac_hits h by (simp add: sum_list_filter_if)
  then show ?thesis
    by (simp add: buildings_in_cells_def set_sjoin)
qed

theorem cell_weight_is_sum_of_contained_witness:
  "(\<forall>b c'. (b, c') \<in> set (buildings_in_cells pixel_within feats grid4) \<longleftrightarrow>
            b \<in> set feats \<and> c' \<in> set grid4 \<and> pixel_within (b_geometry b) (c_geometry c')) \<and>
   da_val (building_area_in_cell pixel_within feats grid4) 1 0 = Some 30"
  using cell_weight_is_sum_of_contained [of grid4 "\<lparr>c_x = 0, c_y = 1, c_geometry = block 0 1\<rparr>" pixel_within feats]
  by (simp add: grid4_def feats_def pixel_within_def block_def)

text \<open>
  A footprint of three squares, two of them and its centre in cell \<open>(0, 0)\<close>, the third
  in cell \<open>(1, 0)\<close>: the join has no row for it.
\<close>

theorem straddling_feature_counterexample:
  "buildings_in_cells pixel_within [\<lparr>b_geometry = [(0, 0), (1, 0), (2, 0)], b_area = 15\<rparr>] grid4 = []"
  by (simp add: buildings_in_cells_def sjoin_def pixel_within_def grid4_def block_def)

subsection \<open>Claim C6\<close>

text \<open>
  Claim C6. The scenario of the specification: four cells, the zone Z1 of the cells
  \<open>(0, 0)\<close> and \<open>(0, 1)\<close>, a feature of weight 10 in the first and one of weight 30 in the
  second. The run prints the key, writes one array, and in it Z1 has 1/4 at \<open>(0, 0)\<close>,
  3/4 at \<open>(0, 1)\<close> and nothing (NaN) at \<open>(1, 0)\<close> and \<open>(1, 1)\<close>. An entry is read as
  \<open>am_val am bus y x\<close>.
\<close>

theorem scenario_z1:
  "\<exists>am. prepare_rooftop_solar_pv pixel_within feats grid4 [(1, z1)] = Inr [Print 1, To_netcdf 1 am] \<and>
     am_val am ''Z1'' 0 0 = Fin (1 / 4) \<and> am_val am ''Z1'' 1 0 = Fin (3 / 4) \<and>
     am_val am ''Z1'' 0 1 = NaN \<and> am_val am ''Z1'' 1 1 = NaN"
proof -
  from availability_matrix_entries [where wp = pixel_within and buildings = feats and grid = grid4 and regions = z1]
  obtain am where
    a: "availability_matrix pixel_within (building_area_in_cell pixel_within feats grid4) grid4 z1 = Inr am"
    and v: "\<And>b y x. am_val am b y x =
        (if b \<in> r_name ` set z1 \<and> (x, y) \<in> box (members pixel_within grid4 z1 b)
         then nan_divide (da_val (building_area_in_cell pixel_within feats grid4) y x)
                (sum (weight (building_area_in_cell pixel_within feats grid4)) (box (members pixel_within grid4 z1 b)))
         else NaN)"
    by auto
  have bx: "box (members pixel_within grid4 z1 ''Z1'') = {(0, 0), (0, 1)}"
    by (auto simp: z1_members box_def)
  have "am_val am ''Z1'' 0 0 = Fin (1 / 4)" "am_val am ''Z1'' 1 0 = Fin (3 / 4)"
    "am_val am ''Z1'' 0 1 = NaN" "am_val am ''Z1'' 1 1 = NaN"
    unfolding v bx
    by (simp_all add: z1_def weight_def bac_val feats_groupby nan_to_zero_def nan_divide_def np_divide_def)
  moreover have "prepare_rooftop_solar_pv pixel_within feats grid4 [(1, z1)] = Inr [Print 1, To_netcdf 1 am]"
    using a by (simp add: prepare_rooftop_solar_pv_def)
  ultimately show ?thesis
    by blast
qed

subsection \<open>Claim C7\<close>




subsection \<open>Claim C8\<close>

text \<open>
  Claim C8. A cell of the grid, the labels of the grid being distinct, is a member cell
  of a bus exactly when its polygon is within the polygon of a region of that name; a
  cell that is within no region is a member of none.
\<close>

theorem membership_is_containment:
  assumes "distinct (map (\<lambda>c. (c_x c, c_y c)) grid)" "c \<in> set grid"
  shows "(c_x c, c_y c) \<in> members wp grid regions bus \<longleftrightarrow>
           (\<exists>r\<in>set regions. r_name r = bus \<and> wp (c_geometry c) (r_geometry r))"
proof -
  have same: "c' = c" if "c' \<in> set grid" "c_x c' = c_x c" "c_y c' = c_y c" for c'
    using assms that by (auto simp: distinct_map inj_on_def)
  show ?thesis
    unfolding members_iff using assms(2) same by blast
qed

text \<open>
  The border of the zones W and E runs through the cell \<open>(1, 0)\<close>: it meets both and is
  a member of neither.
\<close>

theorem membership_is_containment_witness:
  "(1, 0) \<notin> members pixel_within grid4 zones_we ''W'' \<and>
   (1, 0) \<notin> members pixel_within grid4 zones_we ''E'' \<and>
   (0, 0) \<in> members pixel_within grid4 zones_we ''W''"
proof -
  have d: "distinct (map (\<lambda>c. (c_x c, c_y c)) grid4)"
    by (simp add: grid4_def)
  have "\<lparr>c_x = 1, c_y = 0, c_geometry = block 1 0\<rparr> \<in> set grid4"
    by (simp add: grid4_def)
  from membership_is_containment [OF d this, of pixel_within zones_we]
  have "(1, 0) \<notin> members pixel_within grid4 zones_we ''W''"
    "(1, 0) \<notin> members pixel_within grid4 zones_we ''E''"
    by (simp_all add: zones_we_def pixel_within_def block_def)
  moreover have "\<lparr>c_x = 0, c_y = 0, c_geometry = block 0 0\<rparr> \<in> set grid4"
    by (simp add: grid4_def)
  from membership_is_containment [OF d this, of pixel_within zones_we]
  have "(0, 0) \<in> members pixel_within grid4 zones_we ''W''"
    by (simp add: zones_we_def pixel_within_def block_def)
  ultimately show ?thesis
    by simp
qed

subsection \<open>Claim C9\<close>

text \<open>
  Claim C9 says that an empty collection of features, cells or zones fails with an
  error. The script checks none of its inputs. As amended: the run always returns, with
  one printed key and one written array for each region key; without region keys it
  prints and writes nothing, and without features or without cells every entry of every
  written array is NaN.
\<close>

theorem no_input_validation:
  "\<exists>evs. prepare_rooftop_solar_pv wp buildings grid supply_regions = Inr evs \<and>
     length evs = 2 * length supply_regions \<and> printed evs = map fst supply_regions \<and>
     (buildings = [] \<or> grid = [] \<longrightarrow>
        (\<forall>k am b y x. (k, am) \<in> set (written evs) \<longrightarrow> am_val am b y x = NaN))"
proof -
  let ?bac = "building_area_in_cell wp buildings grid"
  from region_loop_result [of wp ?bac grid supply_regions] obtain evs where
    e: "region_loop wp ?bac grid supply_regions = Inr evs \<and> length evs = 2 * length supply_regions \<and>
     printed evs = map fst supply_regions \<and> map fst (written evs) = map fst supply_regions \<and>
     map (\<lambda>w. Inr (snd w)) (written evs) = map (\<lambda>kv. availability_matrix wp ?bac grid (snd kv)) supply_regions" ..
  have "am_val am b y x = NaN"
    if empty: "buildings = [] \<or> grid = []" and w: "(k, am) \<in> set (written evs)" for k am b y x
  proof -
    from e have "map (\<lambda>w. Inr (snd w)) (written evs) =
        map (\<lambda>kv. availability_matrix wp ?bac grid (snd kv)) supply_regions"
      by simp
    from written_source [OF w this]
    obtain kv where kv: "availability_matrix wp ?bac grid (snd kv) = Inr am"
      by auto
    from availability_matrix_entries [where wp = wp and buildings = buildings and grid = grid and regions = "snd kv"] kv
    have "am_val am b y x =
        (if b \<in> r_name ` set (snd kv) \<and> (x, y) \<in> box (members wp grid (snd kv) b)
         then nan_divide (da_val ?bac y x) (sum (weight ?bac) (box (members wp grid (snd kv) b)))
         else NaN)"
      by auto
    then show ?thesis
      by (simp add: empty_tables_no_area [OF empty])
  qed
  with e show ?thesis
    unfolding prepare_rooftop_solar_pv_def by blast
qed

theorem no_input_validation_witness:
  "\<exists>evs. prepare_rooftop_solar_pv pixel_within [] grid4 [(1, z1)] = Inr evs \<and>
     length evs = 2 \<and> printed evs = [1] \<and>
     (\<forall>k am b y x. (k, am) \<in> set (written evs) \<longrightarrow> am_val am b y x = NaN)"
  using no_input_validation [of pixel_within "[]" grid4 "[(1, z1)]"] by simp

text \<open>
  Without region keys the run returns at once. Without features, and without cells, it
  prints the key and writes the array as ever.
\<close>

theorem no_input_validation_counterexample:
  "prepare_rooftop_solar_pv pixel_within feats grid4 [] = Inr [] \<and>
   map_sum id (map event_label) (prepare_rooftop_solar_pv pixel_within [] grid4 [(1, z1)]) =
     Inr [(''print'', 1), (''to_netcdf'', 1)] \<and>
   map_sum id (map event_label) (prepare_rooftop_solar_pv pixel_within feats [] [(1, z1)]) =
     Inr [(''print'', 1), (''to_netcdf'', 1)]"
proof -
  obtain am where "availability_matrix pixel_within (building_area_in_cell pixel_within [] grid4) grid4 z1 = Inr am"
    using availability_matrix_returns by blast
  moreover obtain am' where "availability_matrix pixel_within (building_area_in_cell pixel_within feats []) [] z1 = Inr am'"
    using availability_matrix_returns by blast
  ultimately show ?thesis
    by (simp add: prepare_rooftop_solar_pv_def)
qed

subsection \<open>Claim C10\<close>

text \<open>
  Claim C10 says that a zone without member cells yields an empty matrix and a warning
  that is returned with the results. The script has no warnings. As amended: for a bus
  without member cells the run returns, every entry of the bus in the array written for
  its region is NaN, and the run prints one key and writes one array for each region
  key, nothing else.
\<close>

theorem memberless_zone_all_nan:
  assumes "(k, regions) \<in> set supply_regions"
    and "bus \<in> set (map r_name regions)"
    and "members wp grid regions bus = {}"
  shows "\<exists>evs am. prepare_rooftop_solar_pv wp buildings grid supply_regions = Inr evs \<and>
     length evs = 2 * length supply_regions \<and> printed evs = map fst supply_regions \<and>
     availability_matrix wp (building_area_in_cell wp buildings grid) grid regions = Inr am \<and>
     (k, am) \<in> set (written evs) \<and> (\<forall>y x. am_val am bus y x = NaN)"
proof -
  let ?bac = "building_area_in_cell wp buildings grid"
  from region_loop_result [of wp ?bac grid supply_regions] obtain evs where
    e: "region_loop wp ?bac grid supply_regions = Inr evs \<and> length evs = 2 * length supply_regions \<and>
     printed evs = map fst supply_regions \<and> map fst (written evs) = map fst supply_regions \<and>
     map (\<lambda>w. Inr (snd w)) (written evs) = map (\<lambda>kv. availability_matrix wp ?bac grid (snd kv)) supply_regions" ..
  from availability_matrix_entries [where wp = wp and buildings = buildings and grid = grid and regions = regions]
  obtain am where
    a: "availability_matrix wp ?bac grid regions = Inr am \<and>
     am_bus am = map r_name regions \<and> am_y am = unique (map c_y grid) \<and> am_x am = unique (map c_x grid) \<and>
     (\<forall>b y x. am_val am b y x =
        (if b \<in> r_name ` set regions \<and> (x, y) \<in> box (members wp grid regions b)
         then nan_divide (da_val ?bac y x) (sum (weight ?bac) (box (members wp grid regions b)))
         else NaN))" ..
  have w: "(k, am) \<in> set (written evs)"
    using written_matrix [OF assms(1), of evs "availability_matrix wp ?bac grid" am] e a by simp
  have "am_val am bus y x = NaN" for y x
    using a assms(3) by (simp add: box_def)
  with e a w show ?thesis
    unfolding prepare_rooftop_solar_pv_def by blast
qed

theorem memberless_zone_all_nan_witness:
  "\<exists>evs am. prepare_rooftop_solar_pv pixel_within feats grid4 [(1, z3)] = Inr evs \<and>
     length evs = 2 \<and> printed evs = [1] \<and>
     availability_matrix pixel_within (building_area_in_cell pixel_within feats grid4) grid4 z3 = Inr am \<and>
     (1, am) \<in> set (written evs) \<and> (\<forall>y x. am_val am ''Z3'' y x = NaN)"
  using memberless_zone_all_nan [of 1 z3 "[(1, z3)]" "''Z3''" pixel_within grid4 feats] z3_members
  by (simp add: z3_def)

text \<open>
  The zone Z3 is smaller than a cell. All that the run does is to print the key and to
  write the array.
\<close>

theorem memberless_zone_counterexample:
  "members pixel_within grid4 z3 ''Z3'' = {} \<and>
   map_sum id (map event_label) (prepare_rooftop_solar_pv pixel_within feats grid4 [(1, z3)]) =
     Inr [(''print'', 1), (''to_netcdf'', 1)]"
proof -
  obtain am where "availability_matrix pixel_within (building_area_in_cell pixel_within feats grid4) grid4 z3 = Inr am"
    using availability_matrix_returns by blast
  then show ?thesis
    by (simp add: prepare_rooftop_solar_pv_def z3_members)
qed

end
